theory Spec2Isabelle
  imports Main "HOL-Library.Word"
begin

section \<open>The autosmp hotplug controller (second part of ledtrig-thermal.c)\<close>

text \<open>
  The file under \<^verbatim>\<open>src/drivers/leds/ledtrig-thermal.c\<close> holds, after the LED trigger, the
  source of \<^verbatim>\<open>arch/arm/kernel/autosmp.c\<close>: a delayed work item \<^verbatim>\<open>asmp_work_fn\<close> that
  brings CPU cores online or takes them offline according to the run-queue average, two
  early-suspend hooks and the \<^verbatim>\<open>enabled\<close> module parameter.  This theory embeds that second
  part.  Target: 32-bit ARM, so \<^verbatim>\<open>unsigned int\<close> and \<^verbatim>\<open>unsigned long\<close> are both
  \<open>32 word\<close> and \<^verbatim>\<open>ULONG_MAX\<close> is \<open>2 ^ 32 - 1\<close>.  \<^verbatim>\<open>DEBUG\<close> and \<^verbatim>\<open>STATS\<close> are 0 in the
  source, so the code under them is not compiled and not modelled.
\<close>

subsection \<open>Data\<close>

text \<open>\<^verbatim>\<open>struct asmp_param_struct\<close>, field by field.\<close>

record asmp_param_struct =
  delay :: "32 word"
  scroff_single_core :: bool
  max_cpus :: "32 word"
  min_cpus :: "32 word"
  load_limit_up :: "32 word"
  load_limit_down :: "32 word"
  cycle_up :: "32 word"
  cycle_down :: "32 word"

text \<open>
  A request sent to the kernel's CPU hotplug facility.  The source ignores the value
  returned by \<^verbatim>\<open>cpu_up\<close> and \<^verbatim>\<open>cpu_down\<close>; the requests themselves are recorded in a
  history field of the state so that theorems can speak about which unit an operation
  selected.
\<close>

datatype hotplug_call = CpuUp nat | CpuDown nat

text \<open>
  The global state the controller reads and writes: \<^verbatim>\<open>asmp_param\<close>, \<^verbatim>\<open>cycle\<close>,
  \<^verbatim>\<open>enabled\<close>, the accumulator \<^verbatim>\<open>rq_info.rq_avg\<close>, the kernel's \<^verbatim>\<open>cpu_online_mask\<close>
  (one bit per possible CPU id, so its length is \<^verbatim>\<open>nr_cpu_ids\<close>), and the delayed work
  \<^verbatim>\<open>asmp_work\<close> (\<open>None\<close>: not queued; \<open>Some d\<close>: queued to run after \<open>d\<close> milliseconds).
\<close>

record asmp_state =
  asmp_param :: asmp_param_struct
  cycle :: "32 word"
  enabled :: bool
  rq_avg :: "32 word"
  cpu_online_mask :: "bool list"
  asmp_work :: "32 word option"
  hotplug_log :: "hotplug_call list"

text \<open>The initialiser of \<^verbatim>\<open>asmp_param\<close>; \<open>NR\<close> is \<^verbatim>\<open>CONFIG_NR_CPUS\<close>.\<close>

definition asmp_param_init :: "nat \<Rightarrow> asmp_param_struct" where
  "asmp_param_init NR =
     \<lparr> delay = 100, scroff_single_core = True, max_cpus = of_nat NR, min_cpus = 1,
       load_limit_up = 25, load_limit_down = 5, cycle_up = 1, cycle_down = 5 \<rparr>"

definition ASMP_STARTDELAY :: "32 word" where
  "ASMP_STARTDELAY = 20000"

definition ULONG_MAX :: "32 word" where
  "ULONG_MAX = 4294967295"

subsection \<open>Kernel collaborators\<close>

text \<open>
  Modelled from the spec: the cpumask helpers \<^verbatim>\<open>nr_cpu_ids\<close>, \<^verbatim>\<open>cpu_online\<close>,
  \<^verbatim>\<open>num_online_cpus\<close>, \<^verbatim>\<open>for_each_online_cpu\<close> and \<^verbatim>\<open>cpumask_next_zero\<close> are kernel code
  that is not under src/.  The pool is a fixed set of units of which only the online
  flag toggles; a unit id outside the pool is not online; the online units are visited
  in increasing id; \<^verbatim>\<open>cpumask_next_zero(n, mask)\<close> is the lowest id above \<open>n\<close> whose bit
  is clear, and the size of the mask when there is none.
\<close>

definition nr_cpu_ids :: "asmp_state \<Rightarrow> nat" where
  "nr_cpu_ids s = length (cpu_online_mask s)"

definition cpu_online :: "nat \<Rightarrow> asmp_state \<Rightarrow> bool" where
  "cpu_online cpu s = (cpu < length (cpu_online_mask s) \<and> cpu_online_mask s ! cpu)"

definition num_online_cpus :: "asmp_state \<Rightarrow> nat" where
  "num_online_cpus s = length (filter (\<lambda>b. b) (cpu_online_mask s))"

definition online_cpus :: "bool list \<Rightarrow> nat list" where
  "online_cpus msk = filter (\<lambda>cpu. msk ! cpu) [0..<length msk]"

definition cpumask_next_zero :: "nat \<Rightarrow> bool list \<Rightarrow> nat" where
  "cpumask_next_zero n msk =
     (case filter (\<lambda>cpu. \<not> msk ! cpu) [Suc n..<length msk] of
        [] \<Rightarrow> length msk
      | cpu # _ \<Rightarrow> cpu)"

text \<open>
  Modelled from the spec: \<^verbatim>\<open>cpu_up\<close> and \<^verbatim>\<open>cpu_down\<close> are the external power-unit
  collaborator, not under src/.  It performs the action for a given unit id and reports
  success or failure synchronously; \<open>ok cpu\<close> says whether the collaborator carries out
  the request for unit \<open>cpu\<close>.  A request that succeeds flips the online flag of that unit;
  a request that fails, or that names a unit outside the pool or one already in the
  requested state, leaves the pool as it is.  The collaborator itself would take unit 0
  offline if asked to.
\<close>

definition cpu_up :: "(nat \<Rightarrow> bool) \<Rightarrow> nat \<Rightarrow> asmp_state \<Rightarrow> asmp_state" where
  "cpu_up ok cpu s =
     s\<lparr> cpu_online_mask :=
          (if cpu < length (cpu_online_mask s) \<and> \<not> cpu_online_mask s ! cpu \<and> ok cpu
           then (cpu_online_mask s)[cpu := True] else cpu_online_mask s),
        hotplug_log := hotplug_log s @ [CpuUp cpu] \<rparr>"

definition cpu_down :: "(nat \<Rightarrow> bool) \<Rightarrow> nat \<Rightarrow> asmp_state \<Rightarrow> asmp_state" where
  "cpu_down ok cpu s =
     s\<lparr> cpu_online_mask :=
          (if cpu < length (cpu_online_mask s) \<and> cpu_online_mask s ! cpu \<and> ok cpu
           then (cpu_online_mask s)[cpu := False] else cpu_online_mask s),
        hotplug_log := hotplug_log s @ [CpuDown cpu] \<rparr>"

text \<open>
  Modelled from the spec: the workqueue calls \<^verbatim>\<open>queue_delayed_work\<close> and
  \<^verbatim>\<open>cancel_delayed_work_sync\<close> are kernel code, not under src/.  Queueing schedules the
  tick after the given delay unless one is already scheduled; cancelling removes the
  pending tick.  (That a cancel waits for a tick in flight is not expressible here:
  every operation of this model runs to completion before the next one starts.)
\<close>

definition queue_delayed_work :: "32 word \<Rightarrow> asmp_state \<Rightarrow> asmp_state" where
  "queue_delayed_work d s =
     (case asmp_work s of None \<Rightarrow> s\<lparr> asmp_work := Some d \<rparr> | Some _ \<Rightarrow> s)"

definition cancel_delayed_work_sync :: "asmp_state \<Rightarrow> asmp_state" where
  "cancel_delayed_work_sync s = s\<lparr> asmp_work := None \<rparr>"

text \<open>
  Modelled from the spec: \<^verbatim>\<open>param_set_bool\<close> is kernel code, not under src/.  A write
  accepts a boolean textual value; malformed input is rejected without side effects.
  \<open>val\<close> is the parsed text: \<open>None\<close> when it is malformed (the call returns
  \<^verbatim>\<open>-EINVAL\<close>, which is \<open>- 22\<close>), \<open>Some b\<close> otherwise.
\<close>

definition param_set_bool :: "bool option \<Rightarrow> asmp_state \<Rightarrow> int \<times> asmp_state" where
  "param_set_bool val s =
     (case val of None \<Rightarrow> (- 22, s) | Some b \<Rightarrow> (0, s\<lparr> enabled := b \<rparr>))"

subsection \<open>The load sampler\<close>

text \<open>
  \<^verbatim>\<open>get_rq_avg\<close>: under the lock, read \<^verbatim>\<open>rq_info.rq_avg\<close> and set it to 0.  \<open>feed\<close> is the
  scheduler's observer storing a new average between two ticks.
\<close>

definition get_rq_avg :: "asmp_state \<Rightarrow> 32 word \<times> asmp_state" where
  "get_rq_avg s = (rq_avg s, s\<lparr> rq_avg := 0 \<rparr>)"

definition feed :: "32 word \<Rightarrow> asmp_state \<Rightarrow> asmp_state" where
  "feed v s = s\<lparr> rq_avg := v \<rparr>"

subsection \<open>Unit selection\<close>

text \<open>
  \<^verbatim>\<open>get_slowest_cpu\<close> (compiled when \<^verbatim>\<open>CONFIG_NR_CPUS > 2\<close>).  The loop body, for one
  online \<open>cpu\<close>, on the pair \<^verbatim>\<open>(slow_cpu, slow_rate)\<close>; \<open>rate\<close> is \<^verbatim>\<open>cpufreq_get\<close>.
  The loop starts from \<^verbatim>\<open>slow_cpu = 1\<close>, \<^verbatim>\<open>slow_rate = ULONG_MAX\<close> and runs over the online
  CPUs in increasing id.
\<close>

definition slowest_step :: "(nat \<Rightarrow> 32 word) \<Rightarrow> nat \<Rightarrow> nat \<times> 32 word \<Rightarrow> nat \<times> 32 word" where
  "slowest_step rate cpu acc =
     (if cpu > 0 then
        (if rate cpu < snd acc then (cpu, rate cpu) else acc)
      else acc)"

definition get_slowest_cpu :: "(nat \<Rightarrow> 32 word) \<Rightarrow> bool list \<Rightarrow> nat" where
  "get_slowest_cpu rate msk =
     fst (fold (slowest_step rate) (online_cpus msk) (1, ULONG_MAX))"

text \<open>
  The unit each branch of \<^verbatim>\<open>asmp_work_fn\<close> passes to the collaborator: \<^verbatim>\<open>cpu\<close> is
  initialised to 1 and is reassigned only under \<^verbatim>\<open>#if CONFIG_NR_CPUS > 2\<close>.
\<close>

definition cpu_to_up :: "nat \<Rightarrow> asmp_state \<Rightarrow> nat" where
  "cpu_to_up NR s = (if NR > 2 then cpumask_next_zero 0 (cpu_online_mask s) else 1)"

definition cpu_to_down :: "nat \<Rightarrow> (nat \<Rightarrow> 32 word) \<Rightarrow> asmp_state \<Rightarrow> nat" where
  "cpu_to_down NR rate s = (if NR > 2 then get_slowest_cpu rate (cpu_online_mask s) else 1)"

subsection \<open>The tick\<close>

text \<open>
  \<^verbatim>\<open>asmp_work_fn\<close>.  \<^verbatim>\<open>cycle++\<close> comes first and is unconditional (an
  \<^verbatim>\<open>unsigned int\<close>, so it wraps).  \<^verbatim>\<open>nr_cpu_online\<close> is an \<^verbatim>\<open>int\<close> compared with an
  \<^verbatim>\<open>unsigned int\<close>; it is a count of CPUs, never negative and far below \<open>2 ^ 31\<close>, so the
  comparison is the one of the values.  The work is queued again at the end in every
  case.  \<open>up_condition\<close> and \<open>down_condition\<close> are the conditions of the outer
  \<^verbatim>\<open>if\<close> and of the \<^verbatim>\<open>else if\<close>, read on the state in which the tick starts (the
  average it is about to sample and clear).
\<close>

definition up_condition :: "asmp_state \<Rightarrow> bool" where
  "up_condition s =
     (num_online_cpus s < unat (max_cpus (asmp_param s)) \<and>
      rq_avg s \<ge> load_limit_up (asmp_param s))"

definition down_condition :: "asmp_state \<Rightarrow> bool" where
  "down_condition s =
     (num_online_cpus s > unat (min_cpus (asmp_param s)) \<and>
      rq_avg s \<le> load_limit_down (asmp_param s))"

definition asmp_work_fn :: "nat \<Rightarrow> (nat \<Rightarrow> bool) \<Rightarrow> (nat \<Rightarrow> 32 word) \<Rightarrow> asmp_state \<Rightarrow> asmp_state" where
  "asmp_work_fn NR ok rate s0 =
     (let s1 = s0\<lparr> cycle := cycle s0 + 1 \<rparr>;
          (rq, s2) = get_rq_avg s1;
          nr_cpu_online = num_online_cpus s2;
          p = asmp_param s2;
          s3 =
            (if nr_cpu_online < unat (max_cpus p) \<and> rq \<ge> load_limit_up p then
               (if cycle s2 \<ge> cycle_up p then
                  (cpu_up ok (cpu_to_up NR s2) s2)\<lparr> cycle := 0 \<rparr>
                else s2)
             else if nr_cpu_online > unat (min_cpus p) \<and> rq \<le> load_limit_down p then
               (if cycle s2 \<ge> cycle_down p then
                  (cpu_down ok (cpu_to_down NR rate s2) s2)\<lparr> cycle := 0 \<rparr>
                else s2)
             else s2)
      in queue_delayed_work (delay (asmp_param s3)) s3)"

subsection \<open>Suspend, resume and the enabled parameter\<close>

text \<open>
  The loop \<^verbatim>\<open>for (cpu = 1; cpu < nr_cpu_ids; cpu++)\<close> exists only under
  \<^verbatim>\<open>#if CONFIG_NR_CPUS > 2\<close>; otherwise its body runs once with \<^verbatim>\<open>cpu = 1\<close>.
\<close>

definition unplug_one :: "(nat \<Rightarrow> bool) \<Rightarrow> nat \<Rightarrow> asmp_state \<Rightarrow> asmp_state" where
  "unplug_one ok cpu s = (if cpu_online cpu s then cpu_down ok cpu s else s)"

definition hotplug_one :: "(nat \<Rightarrow> bool) \<Rightarrow> nat \<Rightarrow> asmp_state \<Rightarrow> asmp_state" where
  "hotplug_one ok cpu s = (if \<not> cpu_online cpu s then cpu_up ok cpu s else s)"

definition unplug_cores :: "nat \<Rightarrow> (nat \<Rightarrow> bool) \<Rightarrow> asmp_state \<Rightarrow> asmp_state" where
  "unplug_cores NR ok s =
     (if NR > 2 then fold (unplug_one ok) [1..<nr_cpu_ids s] s else unplug_one ok 1 s)"

definition hotplug_cores :: "nat \<Rightarrow> (nat \<Rightarrow> bool) \<Rightarrow> asmp_state \<Rightarrow> asmp_state" where
  "hotplug_cores NR ok s =
     (if NR > 2 then fold (hotplug_one ok) [1..<nr_cpu_ids s] s else hotplug_one ok 1 s)"

text \<open>\<^verbatim>\<open>asmp_early_suspend\<close>.\<close>

definition asmp_early_suspend :: "nat \<Rightarrow> (nat \<Rightarrow> bool) \<Rightarrow> asmp_state \<Rightarrow> asmp_state" where
  "asmp_early_suspend NR ok s0 =
     (let s1 = (if scroff_single_core (asmp_param s0) then unplug_cores NR ok s0 else s0)
      in if enabled s1 then cancel_delayed_work_sync s1 else s1)"

text \<open>\<^verbatim>\<open>asmp_late_resume\<close>.\<close>

definition asmp_late_resume :: "nat \<Rightarrow> (nat \<Rightarrow> bool) \<Rightarrow> asmp_state \<Rightarrow> asmp_state" where
  "asmp_late_resume NR ok s0 =
     (let s1 = (if scroff_single_core (asmp_param s0) then hotplug_cores NR ok s0 else s0)
      in if enabled s1 then queue_delayed_work (delay (asmp_param s1)) s1 else s1)"

text \<open>
  \<^verbatim>\<open>set_enabled\<close>, the setter of the module parameter; it returns what
  \<^verbatim>\<open>param_set_bool\<close> returned.  \<open>enable\<close> and \<open>disable\<close> are the two well-formed writes.
\<close>

definition set_enabled :: "nat \<Rightarrow> (nat \<Rightarrow> bool) \<Rightarrow> bool option \<Rightarrow> asmp_state \<Rightarrow> int \<times> asmp_state" where
  "set_enabled NR ok val s0 =
     (let (ret, s1) = param_set_bool val s0
      in if enabled s1 then (ret, queue_delayed_work (delay (asmp_param s1)) s1)
         else (ret, hotplug_cores NR ok (cancel_delayed_work_sync s1)))"

definition enable :: "nat \<Rightarrow> (nat \<Rightarrow> bool) \<Rightarrow> asmp_state \<Rightarrow> asmp_state" where
  "enable NR ok s = snd (set_enabled NR ok (Some True) s)"


text \<open>
  The \<^verbatim>\<open>store_one\<close> macro, instantiated for each tunable: \<^verbatim>\<open>sscanf\<close> with \<^verbatim>\<open>"%u"\<close>
  either fails (\<open>None\<close>, nothing is written) or yields the value that is assigned, with
  no validation.  Assigning to the \<^verbatim>\<open>bool\<close> field keeps whether the value is non-zero.
\<close>

datatype asmp_attr =
  A_delay | A_scroff_single_core | A_max_cpus | A_min_cpus
  | A_load_limit_up | A_load_limit_down | A_cycle_up | A_cycle_down

fun store_param :: "asmp_attr \<Rightarrow> 32 word \<Rightarrow> asmp_param_struct \<Rightarrow> asmp_param_struct" where
  "store_param A_delay v p = p\<lparr> delay := v \<rparr>"
| "store_param A_scroff_single_core v p = p\<lparr> scroff_single_core := (v \<noteq> 0) \<rparr>"
| "store_param A_max_cpus v p = p\<lparr> max_cpus := v \<rparr>"
| "store_param A_min_cpus v p = p\<lparr> min_cpus := v \<rparr>"
| "store_param A_load_limit_up v p = p\<lparr> load_limit_up := v \<rparr>"
| "store_param A_load_limit_down v p = p\<lparr> load_limit_down := v \<rparr>"
| "store_param A_cycle_up v p = p\<lparr> cycle_up := v \<rparr>"
| "store_param A_cycle_down v p = p\<lparr> cycle_down := v \<rparr>"

definition store_one :: "asmp_attr \<Rightarrow> 32 word option \<Rightarrow> asmp_state \<Rightarrow> asmp_state" where
  "store_one a input s =
     (case input of None \<Rightarrow> s
      | Some v \<Rightarrow> s\<lparr> asmp_param := store_param a v (asmp_param s) \<rparr>)"

subsection \<open>Runs of the controller\<close>

text \<open>
  What can happen to the controller, one event at a time: the delayed work fires (only
  when it is queued; the workqueue clears the pending state before it calls
  \<^verbatim>\<open>asmp_work_fn\<close>), the observer stores a run-queue average, the early-suspend hooks
  are called, \<^verbatim>\<open>enabled\<close> is written, a tunable is written.  Each event carries what
  the environment answers during it: the collaborator's outcome per unit and the
  frequencies \<^verbatim>\<open>cpufreq_get\<close> reports.
\<close>

datatype asmp_event =
  Tick "nat \<Rightarrow> bool" "nat \<Rightarrow> 32 word"
  | Feed "32 word"
  | Suspend "nat \<Rightarrow> bool"
  | Resume "nat \<Rightarrow> bool"
  | SetEnabled "nat \<Rightarrow> bool" "bool option"
  | Store asmp_attr "32 word option"

fun asmp_step :: "nat \<Rightarrow> asmp_event \<Rightarrow> asmp_state \<Rightarrow> asmp_state" where
  "asmp_step NR (Tick ok rate) s =
     (case asmp_work s of None \<Rightarrow> s
      | Some _ \<Rightarrow> asmp_work_fn NR ok rate (s\<lparr> asmp_work := None \<rparr>))"
| "asmp_step NR (Feed v) s = feed v s"
| "asmp_step NR (Suspend ok) s = asmp_early_suspend NR ok s"
| "asmp_step NR (Resume ok) s = asmp_late_resume NR ok s"
| "asmp_step NR (SetEnabled ok val) s = snd (set_enabled NR ok val s)"
| "asmp_step NR (Store a input) s = store_one a input s"

definition asmp_run :: "nat \<Rightarrow> asmp_event list \<Rightarrow> asmp_state \<Rightarrow> asmp_state" where
  "asmp_run NR evs s = fold (asmp_step NR) evs s"

text \<open>
  \<^verbatim>\<open>asmp_init\<close>, as far as the controller's own state goes: \<^verbatim>\<open>cycle = 0\<close>, the work
  queued with \<^verbatim>\<open>ASMP_STARTDELAY\<close> when \<^verbatim>\<open>enabled\<close> (initially 1).  \<open>msk\<close> is the online
  mask the kernel has at that point.
\<close>

definition asmp_init :: "nat \<Rightarrow> bool list \<Rightarrow> asmp_state" where
  "asmp_init NR msk =
     (let s = \<lparr> asmp_param = asmp_param_init NR, cycle = 0, enabled = True, rq_avg = 0,
                cpu_online_mask = msk, asmp_work = None, hotplug_log = [] \<rparr>
      in if enabled s then queue_delayed_work ASMP_STARTDELAY s else s)"

subsection \<open>The invariant and the concrete environments of the examples\<close>

text \<open>
  Unit 0 is online and no request so far has asked to take unit 0 offline.
\<close>

definition primary_kept :: "asmp_state \<Rightarrow> bool" where
  "primary_kept s = (cpu_online 0 s \<and> CpuDown 0 \<notin> set (hotplug_log s))"

text \<open>
  Environments for the worked examples: a collaborator that performs every request, one
  that refuses every request, the frequencies of the specification's selection example
  (unit 0 at 100, the others at 10), and frequencies that all equal \<^verbatim>\<open>ULONG_MAX\<close>.
\<close>

definition always_ok :: "nat \<Rightarrow> bool" where
  "always_ok cpu = True"

definition never_ok :: "nat \<Rightarrow> bool" where
  "never_ok cpu = False"

definition rate_example :: "nat \<Rightarrow> 32 word" where
  "rate_example cpu = (if cpu = 0 then 100 else 10)"


text \<open>
  A concrete controller state for the examples: the default tunables of a
  \<^verbatim>\<open>CONFIG_NR_CPUS = 4\<close> build, the given online mask, counter and run-queue average,
  the work not pending (as it is when \<^verbatim>\<open>asmp_work_fn\<close> starts), no request made yet.
\<close>

definition example_state :: "bool list \<Rightarrow> 32 word \<Rightarrow> 32 word \<Rightarrow> asmp_state" where
  "example_state msk c load =
     \<lparr> asmp_param = asmp_param_init 4, cycle = c, enabled = True, rq_avg = load,
       cpu_online_mask = msk, asmp_work = None, hotplug_log = [] \<rparr>"

section \<open>Properties\<close>

subsection \<open>Frame lemmas\<close>

text \<open>The defining equations, for evaluating the model on a concrete state.\<close>

lemmas asmp_eval =
  asmp_param_init_def ULONG_MAX_def
  nr_cpu_ids_def cpu_online_def num_online_cpus_def online_cpus_def cpumask_next_zero_def
  cpu_up_def cpu_down_def queue_delayed_work_def cancel_delayed_work_sync_def
  get_rq_avg_def feed_def slowest_step_def get_slowest_cpu_def
  cpu_to_up_def cpu_to_down_def up_condition_def down_condition_def asmp_work_fn_def
  unplug_one_def hotplug_one_def unplug_cores_def hotplug_cores_def
  asmp_early_suspend_def asmp_late_resume_def
  store_one_def Let_def word_le_nat_alt word_less_nat_alt

lemma cpu_up_frame:
  "asmp_param (cpu_up ok c s) = asmp_param s"
  "cycle (cpu_up ok c s) = cycle s"
  "enabled (cpu_up ok c s) = enabled s"
  "rq_avg (cpu_up ok c s) = rq_avg s"
  "asmp_work (cpu_up ok c s) = asmp_work s"
  "length (cpu_online_mask (cpu_up ok c s)) = length (cpu_online_mask s)"
  "hotplug_log (cpu_up ok c s) = hotplug_log s @ [CpuUp c]"
  by (simp_all add: cpu_up_def)

lemma cpu_down_frame:
  "asmp_param (cpu_down ok c s) = asmp_param s"
  "cycle (cpu_down ok c s) = cycle s"
  "enabled (cpu_down ok c s) = enabled s"
  "rq_avg (cpu_down ok c s) = rq_avg s"
  "asmp_work (cpu_down ok c s) = asmp_work s"
  "length (cpu_online_mask (cpu_down ok c s)) = length (cpu_online_mask s)"
  "hotplug_log (cpu_down ok c s) = hotplug_log s @ [CpuDown c]"
  by (simp_all add: cpu_down_def)

lemma queue_frame:
  "asmp_param (queue_delayed_work d s) = asmp_param s"
  "cycle (queue_delayed_work d s) = cycle s"
  "enabled (queue_delayed_work d s) = enabled s"
  "rq_avg (queue_delayed_work d s) = rq_avg s"
  "cpu_online_mask (queue_delayed_work d s) = cpu_online_mask s"
  "hotplug_log (queue_delayed_work d s) = hotplug_log s"
  by (simp_all add: queue_delayed_work_def split: option.splits)

lemma cpu_to_up_frame:
  "cpu_online_mask t = cpu_online_mask s \<Longrightarrow> cpu_to_up NR t = cpu_to_up NR s"
  by (simp add: cpu_to_up_def)

lemma cpu_to_down_frame:
  "cpu_online_mask t = cpu_online_mask s \<Longrightarrow> cpu_to_down NR rate t = cpu_to_down NR rate s"
  by (simp add: cpu_to_down_def)

lemma tick_param: "asmp_param (asmp_work_fn NR ok rate s) = asmp_param s"
  by (simp add: asmp_work_fn_def get_rq_avg_def Let_def queue_frame cpu_up_def cpu_down_def)

lemma tick_rq_avg: "rq_avg (asmp_work_fn NR ok rate s) = 0"
  by (simp add: asmp_work_fn_def get_rq_avg_def Let_def queue_frame cpu_up_def cpu_down_def)

lemma tick_cycle:
  "cycle (asmp_work_fn NR ok rate s) =
     (if up_condition s then
        (if cycle_up (asmp_param s) \<le> cycle s + 1 then 0 else cycle s + 1)
      else if down_condition s then
        (if cycle_down (asmp_param s) \<le> cycle s + 1 then 0 else cycle s + 1)
      else cycle s + 1)"
  by (simp add: asmp_work_fn_def get_rq_avg_def Let_def queue_frame up_condition_def
      down_condition_def num_online_cpus_def)

lemma tick_log:
  "hotplug_log (asmp_work_fn NR ok rate s) =
     (if up_condition s then
        (if cycle_up (asmp_param s) \<le> cycle s + 1
         then hotplug_log s @ [CpuUp (cpu_to_up NR s)] else hotplug_log s)
      else if down_condition s then
        (if cycle_down (asmp_param s) \<le> cycle s + 1
         then hotplug_log s @ [CpuDown (cpu_to_down NR rate s)] else hotplug_log s)
      else hotplug_log s)"
  by (simp add: asmp_work_fn_def get_rq_avg_def Let_def queue_frame up_condition_def
      down_condition_def num_online_cpus_def cpu_up_def cpu_down_def
      cpu_to_up_def cpu_to_down_def)

lemma tick_mask:
  "cpu_online_mask (asmp_work_fn NR ok rate s) =
     (if up_condition s then
        (if cycle_up (asmp_param s) \<le> cycle s + 1
         then cpu_online_mask (cpu_up ok (cpu_to_up NR s) s) else cpu_online_mask s)
      else if down_condition s then
        (if cycle_down (asmp_param s) \<le> cycle s + 1
         then cpu_online_mask (cpu_down ok (cpu_to_down NR rate s) s) else cpu_online_mask s)
      else cpu_online_mask s)"
  by (simp add: asmp_work_fn_def get_rq_avg_def Let_def queue_frame up_condition_def
      down_condition_def num_online_cpus_def cpu_up_def cpu_down_def
      cpu_to_up_def cpu_to_down_def)

subsection \<open>Unit 0 stays online\<close>

lemma primary_kept_cpu_up: "primary_kept s \<Longrightarrow> primary_kept (cpu_up ok c s)"
  by (auto simp: primary_kept_def cpu_online_def cpu_up_def nth_list_update)

lemma primary_kept_cpu_down: "primary_kept s \<Longrightarrow> c \<noteq> 0 \<Longrightarrow> primary_kept (cpu_down ok c s)"
  by (auto simp: primary_kept_def cpu_online_def cpu_down_def nth_list_update)

lemma slowest_fold_nonzero:
  "fst acc \<noteq> 0 \<Longrightarrow> fst (fold (slowest_step rate) cs acc) \<noteq> 0"
  by (induction cs arbitrary: acc) (auto simp: slowest_step_def)

lemma get_slowest_cpu_nonzero: "get_slowest_cpu rate m \<noteq> 0"
  unfolding get_slowest_cpu_def by (rule slowest_fold_nonzero) simp

lemma cpu_to_down_nonzero: "cpu_to_down NR rate s \<noteq> 0"
  using get_slowest_cpu_nonzero [of rate "cpu_online_mask s"] by (simp add: cpu_to_down_def)

lemma primary_kept_unplug_fold:
  "primary_kept s \<Longrightarrow> 0 \<notin> set cs \<Longrightarrow> primary_kept (fold (unplug_one ok) cs s)"
  by (induction cs arbitrary: s) (auto simp: unplug_one_def primary_kept_cpu_down)

lemma primary_kept_hotplug_fold:
  "primary_kept s \<Longrightarrow> primary_kept (fold (hotplug_one ok) cs s)"
  by (induction cs arbitrary: s) (auto simp: hotplug_one_def primary_kept_cpu_up)

lemma primary_kept_unplug_cores: "primary_kept s \<Longrightarrow> primary_kept (unplug_cores NR ok s)"
  by (auto simp: unplug_cores_def unplug_one_def primary_kept_cpu_down primary_kept_unplug_fold)

lemma primary_kept_hotplug_cores: "primary_kept s \<Longrightarrow> primary_kept (hotplug_cores NR ok s)"
  by (auto simp: hotplug_cores_def hotplug_one_def primary_kept_cpu_up primary_kept_hotplug_fold)

lemma primary_kept_frame:
  "cpu_online_mask t = cpu_online_mask s \<Longrightarrow> hotplug_log t = hotplug_log s \<Longrightarrow>
   primary_kept t = primary_kept s"
  by (simp add: primary_kept_def cpu_online_def)

lemma primary_kept_queue: "primary_kept (queue_delayed_work d s) = primary_kept s"
  by (rule primary_kept_frame) (simp_all add: queue_delayed_work_def split: option.splits)

lemma primary_kept_cancel: "primary_kept (cancel_delayed_work_sync s) = primary_kept s"
  by (rule primary_kept_frame) (simp_all add: cancel_delayed_work_sync_def)

lemma primary_kept_work_fn: "primary_kept s \<Longrightarrow> primary_kept (asmp_work_fn NR ok rate s)"
proof -
  assume k: "primary_kept s"
  let ?s2 = "s\<lparr>cycle := cycle s + 1, rq_avg := 0\<rparr>"
  have k2: "primary_kept ?s2" using k by (simp add: primary_kept_def cpu_online_def)
  have up: "primary_kept ((cpu_up ok c ?s2)\<lparr>cycle := 0\<rparr>)" for c
    using primary_kept_cpu_up [OF k2, of ok c] by (simp add: primary_kept_def cpu_online_def)
  have down: "primary_kept ((cpu_down ok (cpu_to_down NR rate ?s2) ?s2)\<lparr>cycle := 0\<rparr>)"
    using primary_kept_cpu_down [OF k2 cpu_to_down_nonzero, of ok NR rate]
    by (simp add: primary_kept_def cpu_online_def)
  show ?thesis
    using k2 up down
    by (simp add: asmp_work_fn_def get_rq_avg_def Let_def primary_kept_queue)
qed

lemma primary_kept_suspend: "primary_kept s \<Longrightarrow> primary_kept (asmp_early_suspend NR ok s)"
  by (simp add: asmp_early_suspend_def Let_def primary_kept_cancel primary_kept_unplug_cores)

lemma primary_kept_resume: "primary_kept s \<Longrightarrow> primary_kept (asmp_late_resume NR ok s)"
  by (simp add: asmp_late_resume_def Let_def primary_kept_queue primary_kept_hotplug_cores)

lemma primary_kept_set_enabled:
  "primary_kept s \<Longrightarrow> primary_kept (snd (set_enabled NR ok val s))"
proof -
  assume k: "primary_kept s"
  have k1: "primary_kept (snd (param_set_bool val s))"
    using k by (cases val) (simp_all add: param_set_bool_def primary_kept_def cpu_online_def)
  show ?thesis
    using k1 primary_kept_hotplug_cores [of "cancel_delayed_work_sync (snd (param_set_bool val s))" NR ok]
    by (simp add: set_enabled_def split_beta Let_def primary_kept_queue primary_kept_cancel)
qed

lemma primary_kept_step: "primary_kept s \<Longrightarrow> primary_kept (asmp_step NR ev s)"
proof (cases ev)
  case (Tick ok rate)
  assume k: "primary_kept s"
  have "primary_kept (s\<lparr>asmp_work := None\<rparr>)"
    using k by (simp add: primary_kept_def cpu_online_def)
  then show ?thesis using k Tick by (simp add: primary_kept_work_fn split: option.splits)
next
  case (Feed v)
  assume "primary_kept s"
  then show ?thesis using Feed by (simp add: feed_def primary_kept_def cpu_online_def)
next
  case (Store a input)
  assume "primary_kept s"
  then show ?thesis using Store
    by (simp add: store_one_def primary_kept_def cpu_online_def split: option.splits)
qed (simp_all add: primary_kept_suspend primary_kept_resume primary_kept_set_enabled)

lemma primary_kept_run: "primary_kept s \<Longrightarrow> primary_kept (asmp_run NR evs s)"
  unfolding asmp_run_def by (induction evs arbitrary: s) (simp_all add: primary_kept_step)

lemma online_primary_counted: "cpu_online 0 s \<Longrightarrow> 1 \<le> num_online_cpus s"
proof -
  assume "cpu_online 0 s"
  then have "True \<in> set (cpu_online_mask s)"
    by (auto simp: cpu_online_def in_set_conv_nth)
  then have "filter (\<lambda>b. b) (cpu_online_mask s) \<noteq> []"
    by (auto simp: filter_empty_conv)
  then show ?thesis
    by (cases "filter (\<lambda>b. b) (cpu_online_mask s)") (simp_all add: num_online_cpus_def)
qed

text \<open>
  C1.  In every state the controller reaches from a state in which unit 0 is online, by
  any sequence of ticks, observer updates, suspends, resumes, writes of \<^verbatim>\<open>enabled\<close>
  and writes of tunables, whatever the collaborator answers: at least one unit is online,
  unit 0 is online, and no request to take unit 0 offline has been made.
\<close>

theorem primary_never_offline:
  assumes "cpu_online 0 s0" and "CpuDown 0 \<notin> set (hotplug_log s0)"
  shows "1 \<le> num_online_cpus (asmp_run NR evs s0) \<and>
         cpu_online 0 (asmp_run NR evs s0) \<and>
         CpuDown 0 \<notin> set (hotplug_log (asmp_run NR evs s0))"
proof -
  have "primary_kept s0" using assms by (simp add: primary_kept_def)
  then have "primary_kept (asmp_run NR evs s0)" by (rule primary_kept_run)
  then show ?thesis using online_primary_counted by (auto simp: primary_kept_def)
qed

theorem primary_never_offline_witness:
  "cpu_online 0 (asmp_init 4 [True, True, False, False]) \<and>
   CpuDown 0 \<notin> set (hotplug_log (asmp_init 4 [True, True, False, False])) \<and>
   1 \<le> num_online_cpus
     (asmp_run 4 [Feed 0, Tick always_ok rate_example, Suspend always_ok, Resume never_ok,
                  SetEnabled always_ok (Some False)]
        (asmp_init 4 [True, True, False, False])) \<and>
   cpu_online 0
     (asmp_run 4 [Feed 0, Tick always_ok rate_example, Suspend always_ok, Resume never_ok,
                  SetEnabled always_ok (Some False)]
        (asmp_init 4 [True, True, False, False])) \<and>
   CpuDown 0 \<notin> set (hotplug_log
     (asmp_run 4 [Feed 0, Tick always_ok rate_example, Suspend always_ok, Resume never_ok,
                  SetEnabled always_ok (Some False)]
        (asmp_init 4 [True, True, False, False])))"
proof -
  have h1: "cpu_online 0 (asmp_init 4 [True, True, False, False])"
    by (simp add: asmp_init_def cpu_online_def queue_delayed_work_def)
  have h2: "CpuDown 0 \<notin> set (hotplug_log (asmp_init 4 [True, True, False, False]))"
    by (simp add: asmp_init_def queue_delayed_work_def)
  show ?thesis
    using h1 h2 primary_never_offline [OF h1 h2] by simp
qed

subsection \<open>Selecting the unit to bring online\<close>

lemma filter_upt_first:
  assumes "filter P [a..<b] = x # rest"
  shows "a \<le> x \<and> x < b \<and> P x \<and> (\<forall>y. a \<le> y \<and> y < x \<longrightarrow> \<not> P y)"
proof -
  from assms obtain us vs where
    split: "[a..<b] = us @ x # vs" and us: "\<forall>u\<in>set us. \<not> P u" and px: "P x"
    by (auto simp: filter_eq_Cons_iff)
  have xin: "x \<in> set [a..<b]" by (simp add: split)
  have srt: "sorted (us @ x # vs)" using split sorted_upt [of a b] by simp
  have dst: "distinct (us @ x # vs)" using split distinct_upt [of a b] by simp
  have "\<not> P y" if "a \<le> y" "y < x" for y
  proof -
    have "y \<in> set (us @ x # vs)" using that xin split by (metis atLeastLessThan_iff set_upt order_less_trans)
    moreover have "y \<notin> set vs" using srt that by (auto simp: sorted_append)
    ultimately have "y \<in> set us" using that by auto
    then show ?thesis using us by simp
  qed
  then show ?thesis using xin px by auto
qed

lemma cpumask_next_zero_found:
  assumes "n < c" and "c < length m" and "\<not> m ! c"
  shows "n < cpumask_next_zero n m \<and> cpumask_next_zero n m \<le> c \<and>
         \<not> m ! cpumask_next_zero n m \<and>
         (\<forall>i. n < i \<and> i < cpumask_next_zero n m \<longrightarrow> m ! i)"
proof -
  let ?f = "filter (\<lambda>cpu. \<not> m ! cpu) [Suc n..<length m]"
  have "c \<in> set ?f" using assms by simp
  then obtain x rest where f: "?f = x # rest" by (cases ?f) auto
  have r: "cpumask_next_zero n m = x" by (simp add: cpumask_next_zero_def f)
  from filter_upt_first [OF f]
  have x: "Suc n \<le> x" "x < length m" "\<not> m ! x" "\<forall>y. Suc n \<le> y \<and> y < x \<longrightarrow> m ! y"
    by auto
  have "x \<le> c"
  proof (rule ccontr)
    assume "\<not> x \<le> c"
    then have "m ! c" using x(4) assms(1) by auto
    then show False using assms(3) by simp
  qed
  then show ?thesis using x r by auto
qed

lemma cpumask_next_zero_none:
  assumes "\<forall>c. n < c \<and> c < length m \<longrightarrow> m ! c"
  shows "cpumask_next_zero n m = length m"
proof -
  have "filter (\<lambda>cpu. \<not> m ! cpu) [Suc n..<length m] = []"
    using assms by (auto simp: filter_empty_conv)
  then show ?thesis by (simp add: cpumask_next_zero_def)
qed

lemma offline_unit_exists:
  assumes "num_online_cpus s < nr_cpu_ids s"
  shows "\<exists>c < length (cpu_online_mask s). \<not> cpu_online_mask s ! c"
proof (rule ccontr)
  assume "\<not> ?thesis"
  then have "\<forall>b \<in> set (cpu_online_mask s). b" by (auto simp: in_set_conv_nth)
  then have "filter (\<lambda>b. b) (cpu_online_mask s) = cpu_online_mask s" by (simp add: filter_id_conv)
  then show False using assms by (simp add: num_online_cpus_def nr_cpu_ids_def)
qed

lemma cpu_to_up_offline:
  assumes on0: "cpu_online 0 s" and cap: "num_online_cpus s < nr_cpu_ids s"
    and build: "nr_cpu_ids s \<le> NR"
  shows "cpu_to_up NR s < nr_cpu_ids s \<and> \<not> cpu_online_mask s ! cpu_to_up NR s \<and>
         (\<forall>c < cpu_to_up NR s. cpu_online_mask s ! c)"
proof -
  let ?m = "cpu_online_mask s"
  from offline_unit_exists [OF cap] obtain c where c: "c < length ?m" "\<not> ?m ! c" by auto
  have m0: "?m ! 0" using on0 by (simp add: cpu_online_def)
  have c0: "0 < c" using c m0 by (cases c) auto
  show ?thesis
  proof (cases "NR > 2")
    case True
    from cpumask_next_zero_found [OF c0 c]
    have "cpumask_next_zero 0 ?m \<le> c \<and> \<not> ?m ! cpumask_next_zero 0 ?m \<and>
          (\<forall>i. 0 < i \<and> i < cpumask_next_zero 0 ?m \<longrightarrow> ?m ! i)" by simp
    moreover have "?m ! i" if "i < cpumask_next_zero 0 ?m" for i
      using that calculation m0 by (cases i) auto
    ultimately show ?thesis using True c by (auto simp: cpu_to_up_def nr_cpu_ids_def)
  next
    case False
    then have "c = 1" using c c0 build by (simp add: nr_cpu_ids_def)
    then show ?thesis using False c m0 by (auto simp: cpu_to_up_def nr_cpu_ids_def)
  qed
qed

lemma count_after_up:
  "c < length xs \<Longrightarrow> \<not> xs ! c \<Longrightarrow>
   length (filter (\<lambda>b. b) (xs[c := True])) = Suc (length (filter (\<lambda>b. b) xs))"
  by (induction xs arbitrary: c) (auto split: nat.splits)

lemma count_after_down:
  "c < length xs \<Longrightarrow> xs ! c \<Longrightarrow>
   Suc (length (filter (\<lambda>b. b) (xs[c := False]))) = length (filter (\<lambda>b. b) xs)"
  by (induction xs arbitrary: c) (auto split: nat.splits)

subsection \<open>Hysteresis\<close>

lemma feed_frame:
  "asmp_param (feed v s) = asmp_param s"
  "cycle (feed v s) = cycle s"
  "enabled (feed v s) = enabled s"
  "rq_avg (feed v s) = v"
  "cpu_online_mask (feed v s) = cpu_online_mask s"
  "asmp_work (feed v s) = asmp_work s"
  "hotplug_log (feed v s) = hotplug_log s"
  by (simp_all add: feed_def)

lemma up_condition_feed:
  "up_condition (feed v s) =
     (num_online_cpus s < unat (max_cpus (asmp_param s)) \<and> load_limit_up (asmp_param s) \<le> v)"
  by (simp add: up_condition_def feed_def num_online_cpus_def)

lemma num_online_frame:
  "cpu_online_mask t = cpu_online_mask s \<Longrightarrow> num_online_cpus t = num_online_cpus s"
  by (simp add: num_online_cpus_def)

lemma word32_three:
  "\<not> (3::32 word) \<le> 1" "\<not> (3::32 word) \<le> 2" "(3::32 word) \<le> 3"
  by (simp_all add: word_le_nat_alt)

text \<open>
  C3.  With \<^verbatim>\<open>cycle_up = 3\<close>, \<^verbatim>\<open>cycle = 0\<close> and fewer than \<^verbatim>\<open>max_cpus\<close> units online,
  three consecutive ticks that each read a load of at least \<^verbatim>\<open>load_limit_up\<close> make
  exactly one request: the first and the second tick request nothing and leave the pool
  as it is, the third requests \<^verbatim>\<open>cpu_up\<close> of the selected unit and resets the counter.
  When unit 0 is online, \<^verbatim>\<open>max_cpus\<close> does not exceed the pool, the pool does not exceed
  \<^verbatim>\<open>CONFIG_NR_CPUS\<close> and the collaborator performs the request, the third tick brings
  exactly that one unit online.
\<close>

theorem hysteresis_three_ticks:
  fixes s :: asmp_state and NR :: nat
    and ok1 ok2 ok3 :: "nat \<Rightarrow> bool" and rate1 rate2 rate3 :: "nat \<Rightarrow> 32 word"
    and l1 l2 l3 :: "32 word"
  defines "t1 \<equiv> asmp_work_fn NR ok1 rate1 (feed l1 s)"
  defines "t2 \<equiv> asmp_work_fn NR ok2 rate2 (feed l2 t1)"
  defines "t3 \<equiv> asmp_work_fn NR ok3 rate3 (feed l3 t2)"
  assumes cu: "cycle_up (asmp_param s) = 3" and c0: "cycle s = 0"
    and cap: "num_online_cpus s < unat (max_cpus (asmp_param s))"
    and l1: "load_limit_up (asmp_param s) \<le> l1"
    and l2: "load_limit_up (asmp_param s) \<le> l2"
    and l3: "load_limit_up (asmp_param s) \<le> l3"
  shows "hotplug_log t1 = hotplug_log s \<and> cpu_online_mask t1 = cpu_online_mask s \<and>
         hotplug_log t2 = hotplug_log s \<and> cpu_online_mask t2 = cpu_online_mask s \<and>
         hotplug_log t3 = hotplug_log s @ [CpuUp (cpu_to_up NR s)] \<and>
         cycle t3 = 0 \<and>
         (cpu_online 0 s \<and> unat (max_cpus (asmp_param s)) \<le> nr_cpu_ids s \<and>
          nr_cpu_ids s \<le> NR \<and> ok3 (cpu_to_up NR s) \<longrightarrow>
            cpu_online_mask t3 = (cpu_online_mask s)[cpu_to_up NR s := True] \<and>
            num_online_cpus t3 = Suc (num_online_cpus s))"
proof -
  have u1: "up_condition (feed l1 s)" using cap l1 by (simp add: up_condition_feed)
  have cy1: "cycle t1 = 1" using u1 cu c0 by (simp add: t1_def tick_cycle feed_frame word32_three)
  have lg1: "hotplug_log t1 = hotplug_log s"
    using u1 cu c0 by (simp add: t1_def tick_log feed_frame word32_three)
  have mk1: "cpu_online_mask t1 = cpu_online_mask s"
    using u1 cu c0 by (simp add: t1_def tick_mask feed_frame word32_three)
  have p1: "asmp_param t1 = asmp_param s" by (simp add: t1_def tick_param feed_frame)
  have u2: "up_condition (feed l2 t1)"
    using cap l2 by (simp add: up_condition_feed p1 num_online_frame [OF mk1])
  have cy2: "cycle t2 = 2" using u2 cu cy1 by (simp add: t2_def tick_cycle feed_frame p1 word32_three)
  have lg2: "hotplug_log t2 = hotplug_log s"
    using u2 cu cy1 lg1 by (simp add: t2_def tick_log feed_frame p1 word32_three)
  have mk2: "cpu_online_mask t2 = cpu_online_mask s"
    using u2 cu cy1 mk1 by (simp add: t2_def tick_mask feed_frame p1 word32_three)
  have p2: "asmp_param t2 = asmp_param s" by (simp add: t2_def tick_param feed_frame p1)
  have u3: "up_condition (feed l3 t2)"
    using cap l3 by (simp add: up_condition_feed p2 num_online_frame [OF mk2])
  have cy3: "cycle t3 = 0" using u3 cu cy2 by (simp add: t3_def tick_cycle feed_frame p2 word32_three)
  have tu: "cpu_to_up NR (feed l3 t2) = cpu_to_up NR s"
    by (rule cpu_to_up_frame) (simp add: feed_frame mk2)
  have lg3: "hotplug_log t3 = hotplug_log s @ [CpuUp (cpu_to_up NR s)]"
    using u3 cu cy2 lg2 tu by (simp add: t3_def tick_log feed_frame p2 word32_three)
  have mk3: "cpu_online_mask t3 = cpu_online_mask (cpu_up ok3 (cpu_to_up NR s) (feed l3 t2))"
    using u3 cu cy2 tu by (simp add: t3_def tick_mask feed_frame p2 word32_three)
  have eff: "cpu_online_mask t3 = (cpu_online_mask s)[cpu_to_up NR s := True] \<and>
             num_online_cpus t3 = Suc (num_online_cpus s)"
    if on0: "cpu_online 0 s" and mx: "unat (max_cpus (asmp_param s)) \<le> nr_cpu_ids s"
      and build: "nr_cpu_ids s \<le> NR" and ok: "ok3 (cpu_to_up NR s)"
  proof -
    have "num_online_cpus s < nr_cpu_ids s" using cap mx by simp
    from cpu_to_up_offline [OF on0 this build]
    have sel: "cpu_to_up NR s < length (cpu_online_mask s)"
      "\<not> cpu_online_mask s ! cpu_to_up NR s" by (simp_all add: nr_cpu_ids_def)
    have m: "cpu_online_mask t3 = (cpu_online_mask s)[cpu_to_up NR s := True]"
      using mk3 sel ok by (simp add: cpu_up_def feed_frame mk2)
    then show ?thesis using count_after_up [OF sel] by (simp add: num_online_cpus_def)
  qed
  show ?thesis using lg1 mk1 lg2 mk2 lg3 cy3 eff by blast
qed

theorem hysteresis_three_ticks_witness:
  "cycle_up (asmp_param (store_one A_cycle_up (Some 3) (example_state [True, False, False, False] 0 0))) = 3 \<and>
   cycle (store_one A_cycle_up (Some 3) (example_state [True, False, False, False] 0 0)) = 0 \<and>
   hotplug_log (asmp_work_fn 4 always_ok rate_example (feed 30
     (store_one A_cycle_up (Some 3) (example_state [True, False, False, False] 0 0)))) = [] \<and>
   hotplug_log (asmp_work_fn 4 always_ok rate_example (feed 26
     (asmp_work_fn 4 always_ok rate_example (feed 30
       (store_one A_cycle_up (Some 3) (example_state [True, False, False, False] 0 0)))))) = [] \<and>
   hotplug_log (asmp_work_fn 4 always_ok rate_example (feed 25
     (asmp_work_fn 4 always_ok rate_example (feed 26
       (asmp_work_fn 4 always_ok rate_example (feed 30
         (store_one A_cycle_up (Some 3) (example_state [True, False, False, False] 0 0)))))))) = [CpuUp 1] \<and>
   cpu_online_mask (asmp_work_fn 4 always_ok rate_example (feed 25
     (asmp_work_fn 4 always_ok rate_example (feed 26
       (asmp_work_fn 4 always_ok rate_example (feed 30
         (store_one A_cycle_up (Some 3) (example_state [True, False, False, False] 0 0)))))))) =
     [True, True, False, False]"
proof -
  let ?s = "store_one A_cycle_up (Some 3) (example_state [True, False, False, False] 0 0)"
  have cu: "cycle_up (asmp_param ?s) = 3" by (simp add: store_one_def example_state_def)
  have c0: "cycle ?s = 0" by (simp add: store_one_def example_state_def)
  have cap: "num_online_cpus ?s < unat (max_cpus (asmp_param ?s))"
    by (simp add: store_one_def example_state_def num_online_cpus_def asmp_param_init_def)
  have l1: "load_limit_up (asmp_param ?s) \<le> 30"
    and l2: "load_limit_up (asmp_param ?s) \<le> 26"
    and l3: "load_limit_up (asmp_param ?s) \<le> 25"
    by (simp_all add: store_one_def example_state_def asmp_param_init_def word_le_nat_alt)
  have sel: "cpu_to_up 4 ?s = 1"
    by (simp add: store_one_def example_state_def cpu_to_up_def cpumask_next_zero_def)
  have pre: "cpu_online 0 ?s \<and> unat (max_cpus (asmp_param ?s)) \<le> nr_cpu_ids ?s \<and>
      nr_cpu_ids ?s \<le> 4 \<and> always_ok (cpu_to_up 4 ?s)"
    by (simp add: store_one_def example_state_def cpu_online_def nr_cpu_ids_def
        asmp_param_init_def always_ok_def)
  have lg: "hotplug_log ?s = []" and mk: "cpu_online_mask ?s = [True, False, False, False]"
    by (simp_all add: store_one_def example_state_def)
  from hysteresis_three_ticks [OF cu c0 cap l1 l2 l3, of 4 always_ok rate_example always_ok
      rate_example always_ok rate_example]
  show ?thesis using cu c0 pre sel lg mk by simp
qed

subsection \<open>The counter\<close>

text \<open>
  C2, as amended.  \<^verbatim>\<open>cycle++\<close> is the first statement of \<^verbatim>\<open>asmp_work_fn\<close>: in a tick in
  which neither the scale-up nor the scale-down condition holds the counter is
  incremented by one (modulo \<open>2 ^ 32\<close>), nothing is requested and the pool is unchanged;
  and in every tick that requests nothing the counter ends one higher, so it is assigned
  0 only in a tick that requests an action.
\<close>

theorem tick_counts_every_cycle:
  "(\<not> up_condition s \<and> \<not> down_condition s \<longrightarrow>
      cycle (asmp_work_fn NR ok rate s) = cycle s + 1 \<and>
      hotplug_log (asmp_work_fn NR ok rate s) = hotplug_log s \<and>
      cpu_online_mask (asmp_work_fn NR ok rate s) = cpu_online_mask s) \<and>
   (hotplug_log (asmp_work_fn NR ok rate s) = hotplug_log s \<longrightarrow>
      cycle (asmp_work_fn NR ok rate s) = cycle s + 1)"
  by (simp add: tick_cycle tick_log tick_mask)

theorem tick_counts_every_cycle_witness:
  "\<not> up_condition (example_state [True, True, False, False] 7 10) \<and>
   \<not> down_condition (example_state [True, True, False, False] 7 10) \<and>
   cycle (asmp_work_fn 4 always_ok rate_example
            (example_state [True, True, False, False] 7 10)) = 8 \<and>
   hotplug_log (asmp_work_fn 4 always_ok rate_example
            (example_state [True, True, False, False] 7 10)) = [] \<and>
   cpu_online_mask (asmp_work_fn 4 always_ok rate_example
            (example_state [True, True, False, False] 7 10)) = [True, True, False, False]"
proof -
  let ?s = "example_state [True, True, False, False] 7 10"
  have h: "\<not> up_condition ?s \<and> \<not> down_condition ?s"
    by (simp add: example_state_def up_condition_def down_condition_def num_online_cpus_def
        asmp_param_init_def word_le_nat_alt)
  have v: "cycle ?s + 1 = 8" "hotplug_log ?s = []"
    "cpu_online_mask ?s = [True, True, False, False]"
    by (simp_all add: example_state_def)
  from tick_counts_every_cycle [of ?s 4 always_ok rate_example]
  show ?thesis using h v by simp
qed

text \<open>
  The claim of C2 as stated fails: with two of four units online and a load of 10, between
  the default thresholds 5 and 25, neither condition holds, and the tick takes the counter
  from 0 to 1.
\<close>

theorem dead_band_increments_counterexample:
  "\<not> up_condition (example_state [True, True, False, False] 0 10) \<and>
   \<not> down_condition (example_state [True, True, False, False] 0 10) \<and>
   cycle (example_state [True, True, False, False] 0 10) = 0 \<and>
   cycle (asmp_work_fn 4 always_ok rate_example
            (example_state [True, True, False, False] 0 10)) = 1"
  by (simp add: asmp_eval example_state_def)




subsection \<open>Scale-up before scale-down\<close>

lemma cpu_up_keeps_online: "cpu_online c s \<Longrightarrow> cpu_online c (cpu_up ok u s)"
  by (auto simp: cpu_online_def cpu_up_def nth_list_update)

lemma cpu_online_frame:
  "cpu_online_mask t = cpu_online_mask s \<Longrightarrow> cpu_online c t = cpu_online c s"
  by (simp add: cpu_online_def)

text \<open>
  C10.  When the scale-up and the scale-down condition hold in the same tick, the tick
  requests either nothing or one \<^verbatim>\<open>cpu_up\<close>, and every unit that was online is still
  online after it: no unit is taken offline.
\<close>

theorem scale_up_has_priority:
  assumes up: "up_condition s" and down: "down_condition s"
  shows "(hotplug_log (asmp_work_fn NR ok rate s) = hotplug_log s \<or>
          hotplug_log (asmp_work_fn NR ok rate s) = hotplug_log s @ [CpuUp (cpu_to_up NR s)]) \<and>
         (\<forall>c. cpu_online c s \<longrightarrow> cpu_online c (asmp_work_fn NR ok rate s))"
proof -
  have lg: "hotplug_log (asmp_work_fn NR ok rate s) = hotplug_log s \<or>
      hotplug_log (asmp_work_fn NR ok rate s) = hotplug_log s @ [CpuUp (cpu_to_up NR s)]"
    using up by (simp add: tick_log)
  have "cpu_online c (asmp_work_fn NR ok rate s)" if on: "cpu_online c s" for c
  proof (cases "cycle_up (asmp_param s) \<le> cycle s + 1")
    case True
    then have "cpu_online_mask (asmp_work_fn NR ok rate s) =
        cpu_online_mask (cpu_up ok (cpu_to_up NR s) s)"
      using up by (simp add: tick_mask)
    then show ?thesis using cpu_up_keeps_online [OF on] by (simp add: cpu_online_def)
  next
    case False
    then have "cpu_online_mask (asmp_work_fn NR ok rate s) = cpu_online_mask s"
      using up by (simp add: tick_mask)
    then show ?thesis using on by (simp add: cpu_online_def)
  qed
  then show ?thesis using lg by blast
qed

theorem scale_up_has_priority_witness:
  "up_condition (store_one A_load_limit_down (Some 30)
      (example_state [True, True, False, False] 0 27)) \<and>
   down_condition (store_one A_load_limit_down (Some 30)
      (example_state [True, True, False, False] 0 27)) \<and>
   hotplug_log (asmp_work_fn 4 always_ok rate_example (store_one A_load_limit_down (Some 30)
      (example_state [True, True, False, False] 0 27))) = [CpuUp 2] \<and>
   cpu_online 1 (asmp_work_fn 4 always_ok rate_example (store_one A_load_limit_down (Some 30)
      (example_state [True, True, False, False] 0 27)))"
proof -
  let ?s = "store_one A_load_limit_down (Some 30) (example_state [True, True, False, False] 0 27)"
  have up: "up_condition ?s"
    by (simp add: store_one_def example_state_def up_condition_def num_online_cpus_def
        asmp_param_init_def word_le_nat_alt)
  have down: "down_condition ?s"
    by (simp add: store_one_def example_state_def down_condition_def num_online_cpus_def
        asmp_param_init_def word_le_nat_alt)
  have on: "cpu_online 1 ?s" by (simp add: store_one_def example_state_def cpu_online_def)
  have lg: "hotplug_log (asmp_work_fn 4 always_ok rate_example ?s) = [CpuUp 2]"
    by (simp add: asmp_eval example_state_def always_ok_def)
  from scale_up_has_priority [OF up down, of 4 always_ok rate_example]
  show ?thesis using up down on lg by simp
qed

subsection \<open>Suspend, resume, enable and disable\<close>

lemma hotplug_one_frame:
  "asmp_param (hotplug_one ok a s) = asmp_param s"
  "enabled (hotplug_one ok a s) = enabled s"
  "asmp_work (hotplug_one ok a s) = asmp_work s"
  "length (cpu_online_mask (hotplug_one ok a s)) = length (cpu_online_mask s)"
  by (simp_all add: hotplug_one_def cpu_up_def)

lemma unplug_one_frame:
  "asmp_param (unplug_one ok a s) = asmp_param s"
  "enabled (unplug_one ok a s) = enabled s"
  "asmp_work (unplug_one ok a s) = asmp_work s"
  "length (cpu_online_mask (unplug_one ok a s)) = length (cpu_online_mask s)"
  by (simp_all add: unplug_one_def cpu_down_def)

lemma hotplug_one_bit:
  "c < length (cpu_online_mask s) \<Longrightarrow>
   cpu_online_mask (hotplug_one ok a s) ! c = (cpu_online_mask s ! c \<or> (c = a \<and> ok a))"
  by (auto simp: hotplug_one_def cpu_up_def cpu_online_def nth_list_update)

lemma unplug_one_bit:
  "c < length (cpu_online_mask s) \<Longrightarrow>
   cpu_online_mask (unplug_one ok a s) ! c = (cpu_online_mask s ! c \<and> \<not> (c = a \<and> ok a))"
  by (auto simp: unplug_one_def cpu_down_def cpu_online_def nth_list_update)

lemma hotplug_fold_frame:
  "asmp_param (fold (hotplug_one ok) cs s) = asmp_param s \<and>
   enabled (fold (hotplug_one ok) cs s) = enabled s \<and>
   asmp_work (fold (hotplug_one ok) cs s) = asmp_work s \<and>
   length (cpu_online_mask (fold (hotplug_one ok) cs s)) = length (cpu_online_mask s)"
  by (induction cs arbitrary: s) (simp_all add: hotplug_one_frame)

lemma unplug_fold_frame:
  "asmp_param (fold (unplug_one ok) cs s) = asmp_param s \<and>
   enabled (fold (unplug_one ok) cs s) = enabled s \<and>
   asmp_work (fold (unplug_one ok) cs s) = asmp_work s \<and>
   length (cpu_online_mask (fold (unplug_one ok) cs s)) = length (cpu_online_mask s)"
  by (induction cs arbitrary: s) (simp_all add: unplug_one_frame)

lemma hotplug_fold_bit:
  "c < length (cpu_online_mask s) \<Longrightarrow>
   cpu_online_mask (fold (hotplug_one ok) cs s) ! c =
     (cpu_online_mask s ! c \<or> (c \<in> set cs \<and> ok c))"
proof (induction cs arbitrary: s)
  case Nil
  then show ?case by simp
next
  case (Cons a cs)
  have "c < length (cpu_online_mask (hotplug_one ok a s))"
    using Cons.prems by (simp add: hotplug_one_frame)
  from Cons.IH [OF this] show ?case
    using Cons.prems by (auto simp: hotplug_one_bit)
qed

lemma unplug_fold_bit:
  "c < length (cpu_online_mask s) \<Longrightarrow>
   cpu_online_mask (fold (unplug_one ok) cs s) ! c =
     (cpu_online_mask s ! c \<and> \<not> (c \<in> set cs \<and> ok c))"
proof (induction cs arbitrary: s)
  case Nil
  then show ?case by simp
next
  case (Cons a cs)
  have "c < length (cpu_online_mask (unplug_one ok a s))"
    using Cons.prems by (simp add: unplug_one_frame)
  from Cons.IH [OF this] show ?case
    using Cons.prems by (auto simp: unplug_one_bit)
qed

lemma hotplug_cores_frame:
  "asmp_param (hotplug_cores NR ok s) = asmp_param s"
  "enabled (hotplug_cores NR ok s) = enabled s"
  "asmp_work (hotplug_cores NR ok s) = asmp_work s"
  "length (cpu_online_mask (hotplug_cores NR ok s)) = length (cpu_online_mask s)"
  by (simp_all add: hotplug_cores_def hotplug_fold_frame hotplug_one_frame)

lemma unplug_cores_frame:
  "asmp_param (unplug_cores NR ok s) = asmp_param s"
  "enabled (unplug_cores NR ok s) = enabled s"
  "asmp_work (unplug_cores NR ok s) = asmp_work s"
  "length (cpu_online_mask (unplug_cores NR ok s)) = length (cpu_online_mask s)"
  by (simp_all add: unplug_cores_def unplug_fold_frame unplug_one_frame)

lemma hotplug_cores_bit:
  assumes "nr_cpu_ids s \<le> NR" and "c < nr_cpu_ids s"
  shows "cpu_online_mask (hotplug_cores NR ok s) ! c = (cpu_online_mask s ! c \<or> (0 < c \<and> ok c))"
proof (cases "NR > 2")
  case True
  then show ?thesis using assms by (auto simp: hotplug_cores_def nr_cpu_ids_def hotplug_fold_bit)
next
  case False
  then have "c = 0 \<or> c = 1" using assms by auto
  then show ?thesis using False assms
    by (auto simp: hotplug_cores_def nr_cpu_ids_def hotplug_one_bit)
qed

lemma unplug_cores_bit:
  assumes "nr_cpu_ids s \<le> NR" and "c < nr_cpu_ids s"
  shows "cpu_online_mask (unplug_cores NR ok s) ! c = (cpu_online_mask s ! c \<and> \<not> (0 < c \<and> ok c))"
proof (cases "NR > 2")
  case True
  then show ?thesis using assms by (auto simp: unplug_cores_def nr_cpu_ids_def unplug_fold_bit)
next
  case False
  then have "c = 0 \<or> c = 1" using assms by auto
  then show ?thesis using False assms
    by (auto simp: unplug_cores_def nr_cpu_ids_def unplug_one_bit)
qed

lemma suspend_scroff:
  "scroff_single_core (asmp_param s) \<Longrightarrow>
   cpu_online_mask (asmp_early_suspend NR ok s) = cpu_online_mask (unplug_cores NR ok s) \<and>
   asmp_param (asmp_early_suspend NR ok s) = asmp_param s"
  by (simp add: asmp_early_suspend_def Let_def cancel_delayed_work_sync_def unplug_cores_frame)

lemma resume_scroff:
  "scroff_single_core (asmp_param s) \<Longrightarrow>
   cpu_online_mask (asmp_late_resume NR ok s) = cpu_online_mask (hotplug_cores NR ok s)"
  by (simp add: asmp_late_resume_def Let_def queue_frame)

text \<open>
  C4, as amended.  With \<^verbatim>\<open>scroff_single_core\<close> set, a pool no larger than
  \<^verbatim>\<open>CONFIG_NR_CPUS\<close> and a collaborator that performs the requests of the resume,
  \<^verbatim>\<open>asmp_early_suspend\<close> followed at once by \<^verbatim>\<open>asmp_late_resume\<close> leaves every unit other than
  unit 0 online and unit 0 as it was: the resume brings up every offline unit, not the
  units that were online before.  The online mask therefore equals the one before the
  suspend exactly when every unit other than unit 0 was online before the suspend.
\<close>

theorem suspend_resume_restores_full_pool:
  assumes scroff: "scroff_single_core (asmp_param s)"
    and build: "nr_cpu_ids s \<le> NR"
    and ok: "\<forall>c. 0 < c \<and> c < nr_cpu_ids s \<longrightarrow> ok2 c"
  shows "(\<forall>c. 0 < c \<and> c < nr_cpu_ids s \<longrightarrow>
            cpu_online c (asmp_late_resume NR ok2 (asmp_early_suspend NR ok1 s))) \<and>
         cpu_online 0 (asmp_late_resume NR ok2 (asmp_early_suspend NR ok1 s)) = cpu_online 0 s \<and>
         (cpu_online_mask (asmp_late_resume NR ok2 (asmp_early_suspend NR ok1 s)) =
            cpu_online_mask s
          \<longleftrightarrow> (\<forall>c. 0 < c \<and> c < nr_cpu_ids s \<longrightarrow> cpu_online c s))"
proof -
  let ?u = "asmp_early_suspend NR ok1 s"
  let ?t = "asmp_late_resume NR ok2 ?u"
  have mu: "cpu_online_mask ?u = cpu_online_mask (unplug_cores NR ok1 s)"
    and pu: "asmp_param ?u = asmp_param s"
    using suspend_scroff [OF scroff] by simp_all
  have lu: "length (cpu_online_mask ?u) = length (cpu_online_mask s)"
    by (simp add: mu unplug_cores_frame)
  have nu: "nr_cpu_ids ?u = nr_cpu_ids s" by (simp add: nr_cpu_ids_def lu)
  have mt: "cpu_online_mask ?t = cpu_online_mask (hotplug_cores NR ok2 ?u)"
    using resume_scroff [of ?u] scroff pu by simp
  have lt: "length (cpu_online_mask ?t) = length (cpu_online_mask s)"
    by (simp add: mt hotplug_cores_frame lu)
  have bit: "cpu_online_mask ?t ! c =
      ((cpu_online_mask s ! c \<and> \<not> (0 < c \<and> ok1 c)) \<or> (0 < c \<and> ok2 c))"
    if "c < nr_cpu_ids s" for c
  proof -
    have "cpu_online_mask ?t ! c = (cpu_online_mask ?u ! c \<or> (0 < c \<and> ok2 c))"
      using hotplug_cores_bit [of ?u NR c ok2] build that nu by (simp add: mt)
    then show ?thesis using unplug_cores_bit [OF build that, of ok1] by (simp add: mu)
  qed
  have all: "cpu_online c ?t" if "0 < c" "c < nr_cpu_ids s" for c
    using bit [OF that(2)] that ok lt by (simp add: cpu_online_def nr_cpu_ids_def)
  have zero: "cpu_online 0 ?t = cpu_online 0 s"
  proof (cases "0 < nr_cpu_ids s")
    case True
    then show ?thesis using bit [OF True] lt by (simp add: cpu_online_def nr_cpu_ids_def)
  next
    case False
    then show ?thesis using lt by (simp add: cpu_online_def nr_cpu_ids_def)
  qed
  have same: "(cpu_online_mask ?t = cpu_online_mask s) =
      (\<forall>c. 0 < c \<and> c < nr_cpu_ids s \<longrightarrow> cpu_online c s)"
  proof
    assume eq: "cpu_online_mask ?t = cpu_online_mask s"
    show "\<forall>c. 0 < c \<and> c < nr_cpu_ids s \<longrightarrow> cpu_online c s"
      using all eq by (auto simp: cpu_online_def)
  next
    assume on: "\<forall>c. 0 < c \<and> c < nr_cpu_ids s \<longrightarrow> cpu_online c s"
    show "cpu_online_mask ?t = cpu_online_mask s"
    proof (rule nth_equalityI)
      show "length (cpu_online_mask ?t) = length (cpu_online_mask s)" by (rule lt)
    next
      fix i assume "i < length (cpu_online_mask ?t)"
      then have i: "i < nr_cpu_ids s" by (simp add: lt nr_cpu_ids_def)
      show "cpu_online_mask ?t ! i = cpu_online_mask s ! i"
      proof (cases "0 < i")
        case True
        then show ?thesis using all [OF True i] on i by (simp add: cpu_online_def)
      next
        case False
        then show ?thesis using bit [OF i] by simp
      qed
    qed
  qed
  show ?thesis using all zero same by blast
qed

theorem suspend_resume_restores_full_pool_witness:
  "scroff_single_core (asmp_param (example_state [True, True, True, True] 0 0)) \<and>
   nr_cpu_ids (example_state [True, True, True, True] 0 0) \<le> 4 \<and>
   cpu_online 3 (asmp_late_resume 4 always_ok (asmp_early_suspend 4 always_ok
      (example_state [True, True, True, True] 0 0))) \<and>
   cpu_online_mask (asmp_early_suspend 4 always_ok
      (example_state [True, True, True, True] 0 0)) = [True, False, False, False] \<and>
   cpu_online_mask (asmp_late_resume 4 always_ok (asmp_early_suspend 4 always_ok
      (example_state [True, True, True, True] 0 0))) = [True, True, True, True]"
proof -
  let ?s = "example_state [True, True, True, True] 0 0"
  have scroff: "scroff_single_core (asmp_param ?s)"
    by (simp add: example_state_def asmp_param_init_def)
  have build: "nr_cpu_ids ?s \<le> 4" by (simp add: example_state_def nr_cpu_ids_def)
  have ok: "\<forall>c. 0 < c \<and> c < nr_cpu_ids ?s \<longrightarrow> always_ok c" by (simp add: always_ok_def)
  have before: "\<forall>c. 0 < c \<and> c < nr_cpu_ids ?s \<longrightarrow> cpu_online c ?s"
    by (auto simp: example_state_def nr_cpu_ids_def cpu_online_def less_Suc_eq)
  have mid: "cpu_online_mask (asmp_early_suspend 4 always_ok ?s) = [True, False, False, False]"
    by (simp add: asmp_eval example_state_def always_ok_def)
  have m: "cpu_online_mask ?s = [True, True, True, True]" by (simp add: example_state_def)
  have n: "(3::nat) < nr_cpu_ids ?s" by (simp add: example_state_def nr_cpu_ids_def)
  from suspend_resume_restores_full_pool [OF scroff build ok, of always_ok]
  show ?thesis using scroff build before mid m n by simp
qed

text \<open>
  The claim of C4 as stated fails: from units 0 and 1 online out of four, suspend followed
  by resume ends with all four units online.
\<close>

theorem suspend_resume_roundtrip_counterexample:
  "scroff_single_core (asmp_param (example_state [True, True, False, False] 0 0)) \<and>
   cpu_online_mask (example_state [True, True, False, False] 0 0) =
     [True, True, False, False] \<and>
   cpu_online_mask (asmp_late_resume 4 always_ok (asmp_early_suspend 4 always_ok
      (example_state [True, True, False, False] 0 0))) = [True, True, True, True]"
  by (simp add: asmp_eval example_state_def always_ok_def)



text \<open>
  C9.  Writing true to \<^verbatim>\<open>enabled\<close> twice in a row gives the same return value and the same
  state (the flag, the pool, the pending tick and its delay) as writing it once: the second
  \<^verbatim>\<open>queue_delayed_work\<close> finds the work already pending.
\<close>

theorem enable_idempotent:
  "set_enabled NR ok2 (Some True) (snd (set_enabled NR ok1 (Some True) s)) =
     set_enabled NR ok1 (Some True) s \<and>
   enable NR ok2 (enable NR ok1 s) = enable NR ok1 s"
  by (simp add: enable_def set_enabled_def param_set_bool_def queue_delayed_work_def
      split: option.splits)

subsection \<open>Selecting the unit to take offline\<close>







lemma slowest_fold_skip:
  "\<forall>c\<in>set cs. c = 0 \<or> \<not> rate c < snd acc \<Longrightarrow> fold (slowest_step rate) cs acc = acc"
  by (induction cs arbitrary: acc) (auto simp: slowest_step_def)

lemma online_cpus_set: "c \<in> set (online_cpus m) \<longleftrightarrow> c < length m \<and> m ! c"
  by (auto simp: online_cpus_def)


lemma get_slowest_cpu_default:
  assumes "\<forall>c. 0 < c \<and> c < length m \<and> m ! c \<longrightarrow> \<not> rate c < ULONG_MAX"
  shows "get_slowest_cpu rate m = 1"
proof -
  have "\<forall>c\<in>set (online_cpus m). c = 0 \<or> \<not> rate c < snd (1::nat, ULONG_MAX)"
    using assms by (auto simp: online_cpus_set)
  then show ?thesis by (simp add: get_slowest_cpu_def slowest_fold_skip)
qed





text \<open>
  C8, as amended.  \<^verbatim>\<open>get_slowest_cpu\<close> has no error result: when no unit other than
  unit 0 is online it returns 1, and it never reads \<^verbatim>\<open>min_cpus\<close>.  It is the tick that
  skips the action: when the number of online units is at most \<^verbatim>\<open>min_cpus\<close> the tick
  requests no \<^verbatim>\<open>cpu_down\<close>, and when the scale-up condition does not hold either it requests
  nothing, leaves the pool as it is and leaves the counter incremented, not reset.
\<close>

theorem take_offline_guarded_by_tick:
  "((\<forall>c. 0 < c \<and> c < length m \<longrightarrow> \<not> m ! c) \<longrightarrow> get_slowest_cpu rate m = 1) \<and>
   (num_online_cpus s \<le> unat (min_cpus (asmp_param s)) \<longrightarrow>
      (\<forall>c. hotplug_log (asmp_work_fn NR ok rate s) \<noteq> hotplug_log s @ [CpuDown c]) \<and>
      (\<not> up_condition s \<longrightarrow>
         hotplug_log (asmp_work_fn NR ok rate s) = hotplug_log s \<and>
         cpu_online_mask (asmp_work_fn NR ok rate s) = cpu_online_mask s \<and>
         cycle (asmp_work_fn NR ok rate s) = cycle s + 1))"
proof -
  have nd: "\<not> down_condition s" if "num_online_cpus s \<le> unat (min_cpus (asmp_param s))"
    using that by (simp add: down_condition_def)
  have dflt: "get_slowest_cpu rate m = 1" if "\<forall>c. 0 < c \<and> c < length m \<longrightarrow> \<not> m ! c"
    using that by (intro get_slowest_cpu_default) blast
  show ?thesis using dflt nd
    by (auto simp: tick_log tick_mask tick_cycle)
qed

theorem take_offline_guarded_by_tick_witness:
  "get_slowest_cpu rate_example [True, False, False] = 1 \<and>
   num_online_cpus (example_state [True, False, False] 4 0) \<le>
     unat (min_cpus (asmp_param (example_state [True, False, False] 4 0))) \<and>
   \<not> up_condition (example_state [True, False, False] 4 0) \<and>
   hotplug_log (asmp_work_fn 4 always_ok rate_example (example_state [True, False, False] 4 0)) = [] \<and>
   cpu_online_mask (asmp_work_fn 4 always_ok rate_example (example_state [True, False, False] 4 0)) =
     [True, False, False] \<and>
   cycle (asmp_work_fn 4 always_ok rate_example (example_state [True, False, False] 4 0)) = 5"
proof -
  let ?s = "example_state [True, False, False] 4 0"
  have h1: "\<forall>c. 0 < c \<and> c < length [True, False, False] \<longrightarrow> \<not> [True, False, False] ! c"
    by (auto simp: less_Suc_eq)
  have h2: "num_online_cpus ?s \<le> unat (min_cpus (asmp_param ?s))"
    by (simp add: example_state_def num_online_cpus_def asmp_param_init_def)
  have h3: "\<not> up_condition ?s"
    by (simp add: example_state_def up_condition_def num_online_cpus_def asmp_param_init_def
        word_le_nat_alt)
  have v: "hotplug_log ?s = []" "cpu_online_mask ?s = [True, False, False]" "cycle ?s + 1 = 5"
    by (simp_all add: example_state_def)
  from take_offline_guarded_by_tick [of "[True, False, False]" rate_example ?s 4 always_ok]
  show ?thesis using h1 h2 h3 v by simp
qed

text \<open>
  The claim of C8 as stated fails: with only unit 0 online \<^verbatim>\<open>get_slowest_cpu\<close> returns the
  unit id 1, the same value it returns when unit 1 is online and the slowest.
\<close>

theorem no_eligible_unit_returns_one_counterexample:
  "\<not> [True, False, False] ! 1 \<and> \<not> [True, False, False] ! 2 \<and>
   get_slowest_cpu rate_example [True, False, False] = 1 \<and>
   get_slowest_cpu rate_example [True, True, False] = 1"
  by (simp add: asmp_eval rate_example_def)

end
